theory Spec2Isabelle
  imports Main "HOL-Library.Word" "HOL-Library.Log_Nat"
begin

section \<open>The Passport contract (contracts/src/passport/Passport.sol)\<close>

text \<open>
  Solidity's \<open>address\<close> is a 160-bit and \<open>uint256\<close> a 256-bit unsigned machine
  integer. On words \<open>+\<close> and \<open>-\<close> wrap around, which is what the contract's
  \<open>unchecked\<close> blocks do; checked arithmetic is written out as a test followed by a
  \<open>Panic\<close>.
\<close>

type_synonym address = "160 word"
type_synonym uint256 = "256 word"

text \<open>
  A revert is a value of type \<open>error\<close>. \<open>InvalidFrom\<close> is declared by Passport itself;
  \<open>TargetIsZeroAddress\<close> and \<open>CallerIsNotAuthorized\<close> are the names Passport uses for
  the errors the specification calls \<open>ZeroAddress\<close> and \<open>Unauthorized\<close>. \<open>NotMinted\<close>
  and \<open>UnsafeRecipient\<close> are raised by the inherited token only and carry the
  specification's names. \<open>Panic\<close> is the revert of checked arithmetic on overflow.
\<close>

datatype error =
    InvalidFrom
  | TargetIsZeroAddress
  | CallerIsNotAuthorized
  | NotMinted
  | UnsafeRecipient
  | Panic

datatype event = Transfer address address uint256

text \<open>
  The storage of a deployed Passport: the variables it inherits from the token
  (\<open>_ownerOf\<close>, \<open>_balanceOf\<close>, \<open>getApproved\<close>, \<open>isApprovedForAll\<close>) and from the
  access controller (\<open>owner\<close>, \<open>controller\<close>), then its own (\<open>_supply\<close>,
  \<open>_idTracker\<close>, \<open>renderer\<close>, \<open>timestamps\<close>), and the log of emitted events. A leading
  underscore of the source is written \<open>i_\<close>. A mapping is a total function whose
  default is zero, as in Solidity.
\<close>

record passport =
  i_ownerOf :: "uint256 \<Rightarrow> address"
  i_balanceOf :: "address \<Rightarrow> uint256"
  getApproved :: "uint256 \<Rightarrow> address"
  isApprovedForAll :: "address \<Rightarrow> address \<Rightarrow> bool"
  owner :: address
  controller :: address
  i_supply :: uint256
  i_idTracker :: uint256
  renderer :: address
  timestamps :: "uint256 \<Rightarrow> uint256"
  events :: "event list"

text \<open>
  What a call sees of its transaction: \<open>msg.sender\<close>, \<open>block.timestamp\<close>, and for the
  safe variants whether a recipient accepts the token (an account without code, or a
  contract whose \<open>onERC721Received\<close> answers with the expected selector).
\<close>

record env =
  msg_sender :: address
  block_timestamp :: uint256
  accepts :: "address \<Rightarrow> bool"

text \<open>
  A call either reverts, and then the ledger is the one before the call, or commits its
  effects.
\<close>

definition after :: "passport \<Rightarrow> error + passport \<Rightarrow> passport" where
  "after s r = (case r of Inl _ \<Rightarrow> s | Inr s' \<Rightarrow> s')"

subsection \<open>Inherited code that is not part of the sources\<close>

text \<open>
  Modelled from the spec: the modifier \<open>onlyController\<close> of utils/Controlled.sol. Section
  4.1: the controller is a stored address, and a caller lacking the required role fails
  with \<open>Unauthorized\<close>. The predicate is the modifier's test; the entry points below
  revert with \<open>CallerIsNotAuthorized\<close> where it is false.
\<close>

definition onlyController :: "env \<Rightarrow> passport \<Rightarrow> bool" where
  "onlyController e s \<longleftrightarrow> msg_sender e = controller s"

text \<open>
  Modelled from the spec: the modifier \<open>onlyOwner\<close> of the access controller, as above
  for the owner role.
\<close>

definition onlyOwner :: "env \<Rightarrow> passport \<Rightarrow> bool" where
  "onlyOwner e s \<longleftrightarrow> msg_sender e = owner s"

text \<open>
  Modelled from the spec: the view \<open>ownerOf\<close> of the inherited ERC721. Sections 4.2 and
  7: an operation on a nonexistent or burned id, one without a current owner, fails with
  \<open>NotMinted\<close>.
\<close>

definition ownerOf :: "uint256 \<Rightarrow> passport \<Rightarrow> error + address" where
  "ownerOf id' s = (if i_ownerOf s id' = 0 then Inl NotMinted else Inr (i_ownerOf s id'))"

text \<open>
  Modelled from the spec: \<open>_mint\<close> of the inherited ERC721. Section 4.2, \<open>mint\<close>: sets
  \<open>owner[id] = to\<close> and emits a creation event (a transfer from the zero address). The
  inherited token is compiled without knowledge of Passport's own variables, so it
  writes none of \<open>_supply\<close>, \<open>_idTracker\<close>, \<open>renderer\<close>, \<open>timestamps\<close>. The
  specification names no failure of \<open>mint\<close> besides the controller check and says
  nothing of balances here, so neither is modelled.
\<close>

definition i_mint :: "address \<Rightarrow> uint256 \<Rightarrow> passport \<Rightarrow> error + passport" where
  "i_mint to id' s =
     Inr (s\<lparr>i_ownerOf := (i_ownerOf s)(id' := to),
            events := events s @ [Transfer 0 to id']\<rparr>)"

text \<open>
  Modelled from the spec: \<open>_safeMint\<close> of the inherited ERC721. Section 4.2, \<open>safeMint\<close>:
  as \<open>mint\<close>, plus the check that the recipient accepts the credential, failing with
  \<open>UnsafeRecipient\<close> otherwise.
\<close>

definition i_safeMint :: "env \<Rightarrow> address \<Rightarrow> uint256 \<Rightarrow> passport \<Rightarrow> error + passport" where
  "i_safeMint e to id' s =
     (case i_mint to id' s of
        Inl err \<Rightarrow> Inl err
      | Inr s' \<Rightarrow> if accepts e to then Inr s' else Inl UnsafeRecipient)"

text \<open>
  Modelled from the spec: \<open>_burn\<close> of the inherited ERC721. Section 4.2, \<open>burn\<close>: fails
  with \<open>NotMinted\<close> if the id has no current owner; clears the owner and the per-token
  approval.
\<close>

definition i_burn :: "uint256 \<Rightarrow> passport \<Rightarrow> error + passport" where
  "i_burn id' s =
     (if i_ownerOf s id' = 0 then Inl NotMinted
      else Inr (s\<lparr>i_ownerOf := (i_ownerOf s)(id' := 0),
                  getApproved := (getApproved s)(id' := 0)\<rparr>))"

subsection \<open>Views\<close>

definition totalSupply :: "passport \<Rightarrow> uint256" where
  "totalSupply s = i_supply s"

definition getNextId :: "passport \<Rightarrow> uint256" where
  "getNextId s = i_idTracker s"

subsection \<open>Controlled actions\<close>

text \<open>
  \<open>transferFrom\<close>: the modifier runs first, then the three checks in the source's order,
  then the unchecked balance updates, the new owner, the cleared approval and the event.
\<close>

definition transferFrom :: "env \<Rightarrow> address \<Rightarrow> address \<Rightarrow> uint256 \<Rightarrow> passport \<Rightarrow> error + passport" where
  "transferFrom e from to id' s =
     (if \<not> onlyController e s then Inl CallerIsNotAuthorized
      else if from \<noteq> i_ownerOf s id' then Inl InvalidFrom
      else if to = 0 then Inl TargetIsZeroAddress
      else if msg_sender e \<noteq> from \<and>
              isApprovedForAll s from (msg_sender e) = False \<and>
              msg_sender e \<noteq> getApproved s id' \<and>
              msg_sender e \<noteq> controller s
           then Inl CallerIsNotAuthorized
      else
        let s1 = s\<lparr>i_balanceOf := (i_balanceOf s)(from := i_balanceOf s from - 1)\<rparr>;
            s2 = s1\<lparr>i_balanceOf := (i_balanceOf s1)(to := i_balanceOf s1 to + 1)\<rparr>;
            s3 = s2\<lparr>i_ownerOf := (i_ownerOf s2)(id' := to)\<rparr>;
            s4 = s3\<lparr>getApproved := (getApproved s3)(id' := 0)\<rparr>
        in Inr (s4\<lparr>events := events s4 @ [Transfer from to id']\<rparr>))"

text \<open>
  Modelled from the spec: the inherited \<open>safeTransferFrom\<close> that Passport's override
  calls through \<open>super\<close>. Section 4.2: the same authorization and effects as
  \<open>transferFrom\<close>, plus the receiver-acceptance check of \<open>safeMint\<close>.
\<close>

definition super_safeTransferFrom ::
    "env \<Rightarrow> address \<Rightarrow> address \<Rightarrow> uint256 \<Rightarrow> passport \<Rightarrow> error + passport" where
  "super_safeTransferFrom e from to id' s =
     (case transferFrom e from to id' s of
        Inl err \<Rightarrow> Inl err
      | Inr s' \<Rightarrow> if accepts e to then Inr s' else Inl UnsafeRecipient)"

definition safeTransferFrom ::
    "env \<Rightarrow> address \<Rightarrow> address \<Rightarrow> uint256 \<Rightarrow> passport \<Rightarrow> error + passport" where
  "safeTransferFrom e from to id' s =
     (if \<not> onlyController e s then Inl CallerIsNotAuthorized
      else super_safeTransferFrom e from to id' s)"

text \<open>
  \<open>mint\<close>: \<open>_mint(to, _idTracker)\<close>, the returned id is the tracker's value, then both
  counters are incremented inside \<open>unchecked\<close>. Nothing reads \<open>block.timestamp\<close> and
  nothing writes \<open>timestamps\<close>.
\<close>

definition mint :: "env \<Rightarrow> address \<Rightarrow> passport \<Rightarrow> error + (uint256 \<times> passport)" where
  "mint e to s =
     (if \<not> onlyController e s then Inl CallerIsNotAuthorized
      else case i_mint to (i_idTracker s) s of
        Inl err \<Rightarrow> Inl err
      | Inr s1 \<Rightarrow>
          let tokenId = i_idTracker s1;
              s2 = s1\<lparr>i_idTracker := i_idTracker s1 + 1\<rparr>;
              s3 = s2\<lparr>i_supply := i_supply s2 + 1\<rparr>
          in Inr (tokenId, s3))"

text \<open>
  \<open>safeMint\<close>: as \<open>mint\<close> through \<open>_safeMint\<close>, but the two increments are checked: at
  the largest \<open>uint256\<close> they revert.
\<close>

definition safeMint :: "env \<Rightarrow> address \<Rightarrow> passport \<Rightarrow> error + (uint256 \<times> passport)" where
  "safeMint e to s =
     (if \<not> onlyController e s then Inl CallerIsNotAuthorized
      else case i_safeMint e to (i_idTracker s) s of
        Inl err \<Rightarrow> Inl err
      | Inr s1 \<Rightarrow>
          let tokenId = i_idTracker s1 in
          if i_idTracker s1 = - 1 then Inl Panic
          else let s2 = s1\<lparr>i_idTracker := i_idTracker s1 + 1\<rparr> in
          if i_supply s2 = - 1 then Inl Panic
          else Inr (tokenId, s2\<lparr>i_supply := i_supply s2 + 1\<rparr>))"

text \<open>\<open>burn\<close>: \<open>_burn(id)\<close>, then the unchecked decrement of the supply.\<close>

definition burn :: "env \<Rightarrow> uint256 \<Rightarrow> passport \<Rightarrow> error + passport" where
  "burn e id' s =
     (if \<not> onlyController e s then Inl CallerIsNotAuthorized
      else case i_burn id' s of
        Inl err \<Rightarrow> Inl err
      | Inr s1 \<Rightarrow> Inr (s1\<lparr>i_supply := i_supply s1 - 1\<rparr>))"

subsection \<open>Owner actions\<close>

definition setRenderer :: "env \<Rightarrow> address \<Rightarrow> passport \<Rightarrow> error + passport" where
  "setRenderer e r s =
     (if \<not> onlyOwner e s then Inl CallerIsNotAuthorized
      else Inr (s\<lparr>renderer := r\<rparr>))"

subsection \<open>Sequences of calls\<close>

text \<open>
  The ledger orders the calls it receives. A call that reverts leaves the ledger as it
  was; \<open>run\<close> also collects, in order, the ids that successful mints returned.
\<close>

datatype call =
    Mint address
  | SafeMint address
  | Burn uint256
  | TransferFrom address address uint256
  | SafeTransferFrom address address uint256
  | SetRenderer address

fun minted :: "error + (uint256 \<times> passport) \<Rightarrow> passport \<Rightarrow> uint256 list \<times> passport" where
  "minted (Inl _) s = ([], s)"
| "minted (Inr (tokenId, s')) s = ([tokenId], s')"

fun step :: "env \<times> call \<Rightarrow> passport \<Rightarrow> uint256 list \<times> passport" where
  "step (e, Mint to) s = minted (mint e to s) s"
| "step (e, SafeMint to) s = minted (safeMint e to s) s"
| "step (e, Burn id') s = ([], after s (burn e id' s))"
| "step (e, TransferFrom from to id') s = ([], after s (transferFrom e from to id' s))"
| "step (e, SafeTransferFrom from to id') s = ([], after s (safeTransferFrom e from to id' s))"
| "step (e, SetRenderer r) s = ([], after s (setRenderer e r s))"

fun run :: "(env \<times> call) list \<Rightarrow> passport \<Rightarrow> uint256 list \<times> passport" where
  "run [] s = ([], s)"
| "run (c # cs) s =
     (let (ids, s1) = step c s; (ids', s2) = run cs s1 in (ids @ ids', s2))"

text \<open>
  A freshly deployed contract whose owner has installed a controller: no token, both
  counters zero, no renderer.
\<close>

definition deployed :: "address \<Rightarrow> address \<Rightarrow> passport" where
  "deployed own ctl =
     \<lparr>i_ownerOf = (\<lambda>_. 0), i_balanceOf = (\<lambda>_. 0), getApproved = (\<lambda>_. 0),
      isApprovedForAll = (\<lambda>_ _. False), owner = own, controller = ctl,
      i_supply = 0, i_idTracker = 0, renderer = 0, timestamps = (\<lambda>_. 0),
      events = []\<rparr>"

definition call_by :: "address \<Rightarrow> uint256 \<Rightarrow> env" where
  "call_by a t = \<lparr>msg_sender = a, block_timestamp = t, accepts = (\<lambda>_. True)\<rparr>"

fun is_mint :: "env \<times> call \<Rightarrow> bool" where
  "is_mint (e, Mint to) = True"
| "is_mint (e, SafeMint to) = True"
| "is_mint (e, c) = False"

subsection \<open>Concrete ledgers used in the examples\<close>

text \<open>
  Owner 1 deploys and installs controller 2. \<open>one_minted\<close>: the controller has minted
  token 0 to account 7. \<open>then_burned\<close>: it has burned that token again. \<open>wrap_calls\<close>:
  a mint, the burn of token 0, and then \<open>2 ^ 256\<close> further mints.
\<close>

definition one_minted :: passport where
  "one_minted = snd (run [(call_by 2 0, Mint 7)] (deployed 1 2))"

definition then_burned :: passport where
  "then_burned = after one_minted (burn (call_by 2 0) 0 one_minted)"

definition wrap_calls :: "(env \<times> call) list" where
  "wrap_calls =
     (call_by 2 0, Mint 7) # (call_by 2 0, Burn 0) # replicate (2 ^ 256) (call_by 2 0, Mint 7)"

section \<open>The lock page (ui/pages/lock.tsx)\<close>

subsection \<open>JavaScript numbers\<close>

text \<open>
  The two functions of the page that calculate do so on JavaScript numbers, IEEE 754
  binary64 values. A finite value is a sign (\<open>True\<close> for negative) and a non-negative
  rational magnitude, so that both zeros exist; the others are the two infinities and
  \<open>NaN\<close>. Every arithmetic operation computes the exact rational result and rounds it
  to the nearest double, ties to even, as the standard prescribes.
\<close>

datatype number = Finite bool rat | Infinity bool | NaN

abbreviation lit :: "rat \<Rightarrow> number" where
  "lit x \<equiv> Finite False x"

definition pow2 :: "int \<Rightarrow> rat" where
  "pow2 e = (if 0 \<le> e then 2 ^ nat e else 1 / 2 ^ nat (- e))"

text \<open>For \<open>x > 0\<close>, the exponent \<open>e\<close> with \<open>2 ^ e \<le> x < 2 ^ (e + 1)\<close>.\<close>

definition floor_log2 :: "rat \<Rightarrow> int" where
  "floor_log2 x = (if 1 \<le> x then bitlen \<lfloor>x\<rfloor> - 1 else - bitlen (\<lceil>1 / x\<rceil> - 1))"

text \<open>
  Rounding a magnitude: 53 significant bits, exponents from -1022 (below that the
  spacing of the subnormals, \<open>2 ^ -1074\<close>, stays), and overflow (\<open>None\<close>) when the
  rounded value reaches \<open>2 ^ 1024\<close>.
\<close>

definition round_magnitude :: "rat \<Rightarrow> rat option" where
  "round_magnitude m =
     (if m = 0 then Some 0
      else
        let e = max (floor_log2 m) (- 1022);
            u = pow2 (e - 52);
            q = m / u;
            n = \<lfloor>q\<rfloor>;
            r = q - of_int n;
            k = (if r < 1 / 2 then n else if 1 / 2 < r then n + 1
                 else if even n then n else n + 1);
            v = of_int k * u
        in if 2 ^ 1024 \<le> v then None else Some v)"

definition fl :: "bool \<Rightarrow> rat \<Rightarrow> number" where
  "fl sg m = (case round_magnitude m of None \<Rightarrow> Infinity sg | Some v \<Rightarrow> Finite sg v)"

definition signed_value :: "bool \<Rightarrow> rat \<Rightarrow> rat" where
  "signed_value sg m = (if sg then - m else m)"

text \<open>The operators \<open>+\<close>, unary \<open>-\<close>, binary \<open>-\<close>, \<open>*\<close>, \<open>/\<close>, \<open>>\<close> and \<open>!\<close> on numbers.\<close>

fun js_add :: "number \<Rightarrow> number \<Rightarrow> number" where
  "js_add NaN y = NaN"
| "js_add x NaN = NaN"
| "js_add (Infinity s) (Infinity t) = (if s = t then Infinity s else NaN)"
| "js_add (Infinity s) (Finite t b) = Infinity s"
| "js_add (Finite s a) (Infinity t) = Infinity t"
| "js_add (Finite s a) (Finite t b) =
     (let v = signed_value s a + signed_value t b
      in if v = 0 then Finite (s \<and> t) 0 else fl (v < 0) \<bar>v\<bar>)"

fun js_neg :: "number \<Rightarrow> number" where
  "js_neg NaN = NaN"
| "js_neg (Infinity s) = Infinity (\<not> s)"
| "js_neg (Finite s a) = Finite (\<not> s) a"

definition js_sub :: "number \<Rightarrow> number \<Rightarrow> number" where
  "js_sub x y = js_add x (js_neg y)"

fun js_mul :: "number \<Rightarrow> number \<Rightarrow> number" where
  "js_mul NaN y = NaN"
| "js_mul x NaN = NaN"
| "js_mul (Infinity s) (Infinity t) = Infinity (s \<noteq> t)"
| "js_mul (Infinity s) (Finite t b) = (if b = 0 then NaN else Infinity (s \<noteq> t))"
| "js_mul (Finite s a) (Infinity t) = (if a = 0 then NaN else Infinity (s \<noteq> t))"
| "js_mul (Finite s a) (Finite t b) = fl (s \<noteq> t) (a * b)"

text \<open>Division by zero does not raise: it gives an infinity, or \<open>NaN\<close> for \<open>0 / 0\<close>.\<close>

fun js_div :: "number \<Rightarrow> number \<Rightarrow> number" where
  "js_div NaN y = NaN"
| "js_div x NaN = NaN"
| "js_div (Infinity s) (Infinity t) = NaN"
| "js_div (Infinity s) (Finite t b) = Infinity (s \<noteq> t)"
| "js_div (Finite s a) (Infinity t) = Finite (s \<noteq> t) 0"
| "js_div (Finite s a) (Finite t b) =
     (if b = 0 then (if a = 0 then NaN else Infinity (s \<noteq> t))
      else fl (s \<noteq> t) (a / b))"

fun js_gt :: "number \<Rightarrow> number \<Rightarrow> bool" where
  "js_gt NaN y = False"
| "js_gt x NaN = False"
| "js_gt (Infinity s) (Infinity t) = (\<not> s \<and> t)"
| "js_gt (Infinity s) (Finite t b) = (\<not> s)"
| "js_gt (Finite s a) (Infinity t) = t"
| "js_gt (Finite s a) (Finite t b) = (signed_value t b < signed_value s a)"

text \<open>\<open>!x\<close> is true for the falsy numbers: both zeros and \<open>NaN\<close>.\<close>

fun js_not :: "number \<Rightarrow> bool" where
  "js_not NaN = True"
| "js_not (Infinity s) = False"
| "js_not (Finite s a) = (a = 0)"

text \<open>A boolean compared with a number is converted first: \<open>true\<close> to 1, \<open>false\<close> to 0.\<close>

definition of_boolean :: "bool \<Rightarrow> number" where
  "of_boolean b = Finite False (if b then 1 else 0)"

subsection \<open>Number.prototype.toFixed\<close>

text \<open>
  What the functions return: the number 0, or the string that \<open>toFixed\<close> produces.
  From \<open>10 ^ 21\<close> on \<open>toFixed\<close> hands over to the general conversion of a number to a
  string (exponent notation), which is kept symbolic as \<open>ToString x\<close>.
\<close>

datatype jsvalue = JSNumber number | JSString string | ToString number

fun digits :: "nat \<Rightarrow> string" where
  "digits n = (if n < 10 then [''0123456789'' ! n]
               else digits (n div 10) @ [''0123456789'' ! (n mod 10)])"

declare digits.simps [simp del]

text \<open>
  The steps of the language specification: \<open>n\<close> is the integer for which
  \<open>n / 10 ^ f\<close> is closest to the value, the larger one of two; its decimal digits are
  padded with zeros to \<open>f + 1\<close> places and the point is put before the last \<open>f\<close>; a
  value below zero gets a minus sign.
\<close>

definition toFixed :: "number \<Rightarrow> nat \<Rightarrow> jsvalue" where
  "toFixed x f =
     (case x of
        NaN \<Rightarrow> JSString ''NaN''
      | Infinity s \<Rightarrow> JSString (if s then ''-Infinity'' else ''Infinity'')
      | Finite s a \<Rightarrow>
          if 10 ^ 21 \<le> a then ToString x
          else
            let n = nat \<lfloor>a * 10 ^ f + 1 / 2\<rfloor>;
                m = digits n;
                m = (if f \<noteq> 0 \<and> length m \<le> f
                     then replicate (f + 1 - length m) CHR ''0'' @ m else m);
                k = length m;
                m = (if f \<noteq> 0 then take (k - f) m @ ''.'' @ drop (k - f) m else m)
            in JSString ((if s \<and> 0 < a then ''-'' else []) @ m))"

subsection \<open>calculateVestingStart and calculateVeNation\<close>

text \<open>
  The object both functions destructure. Its fields are taken to be numbers; the
  source's \<open>max\<close> is written \<open>max'\<close>.
\<close>

record lock_args =
  nationAmount :: number
  veNationAmount :: number
  time :: number
  lockTime :: number
  max' :: number

definition calculateVestingStart :: "number \<Rightarrow> number \<Rightarrow> number \<Rightarrow> number" where
  "calculateVestingStart nationAmount' veNationAmount' lockTime' =
     (let fourYears = js_mul (lit 31556926000) (lit 4)
      in js_sub lockTime' (js_mul (js_div veNationAmount' nationAmount') fourYears))"

text \<open>
  The guard is the source's \<open>!nationAmount > 0\<close>: the negation is applied first and
  its boolean is then compared with 0.
\<close>

definition calculateVeNation :: "lock_args \<Rightarrow> jsvalue" where
  "calculateVeNation a =
     (if js_gt (of_boolean (js_not (nationAmount a))) (lit 0) then JSNumber (lit 0)
      else
        let vestingStart = calculateVestingStart (nationAmount a) (veNationAmount a) (lockTime a);
            percentage = js_div (js_sub (time a) vestingStart) (js_sub (max' a) vestingStart);
            finalVeNationAmount = js_mul (nationAmount a) percentage
        in toFixed finalVeNationAmount (if js_gt finalVeNationAmount (lit 1) then 2 else 8))"

subsection \<open>Concrete locks used in the examples\<close>


definition existing_lock :: "int \<Rightarrow> rat \<Rightarrow> lock_args" where
  "existing_lock T0 t =
     \<lparr>nationAmount = lit 1000, veNationAmount = lit 1000, time = lit t,
      lockTime = lit (of_int T0 + 126227704000), max' = lit (of_int T0 + 126227704000)\<rparr>"


definition small_lock :: lock_args where
  "small_lock =
     \<lparr>nationAmount = lit (9 / 8), veNationAmount = lit (9 / 8), time = lit 1776227704000,
      lockTime = lit 1776227704000, max' = lit 1776227704000\<rparr>"

definition empty_lock :: lock_args where
  "empty_lock =
     \<lparr>nationAmount = lit 0, veNationAmount = lit 0, time = lit 1776227704000,
      lockTime = lit 1650000000000, max' = lit 1776227704000\<rparr>"

section \<open>Properties of the Passport contract\<close>

subsection \<open>Successful calls\<close>

lemma transferFrom_Inr_iff:
  "transferFrom e from to id' s = Inr s' \<longleftrightarrow>
     msg_sender e = controller s \<and> from = i_ownerOf s id' \<and> to \<noteq> 0 \<and>
     s' = s\<lparr>i_balanceOf := ((i_balanceOf s)(from := i_balanceOf s from - 1))
                 (to := ((i_balanceOf s)(from := i_balanceOf s from - 1)) to + 1),
            i_ownerOf := (i_ownerOf s)(id' := to),
            getApproved := (getApproved s)(id' := 0),
            events := events s @ [Transfer from to id']\<rparr>"
  by (auto simp: transferFrom_def onlyController_def Let_def)

lemma after_transferFrom:
  "after s (transferFrom e from to id' s) =
     (if msg_sender e = controller s \<and> from = i_ownerOf s id' \<and> to \<noteq> 0
      then s\<lparr>i_balanceOf := ((i_balanceOf s)(from := i_balanceOf s from - 1))
                 (to := ((i_balanceOf s)(from := i_balanceOf s from - 1)) to + 1),
             i_ownerOf := (i_ownerOf s)(id' := to),
             getApproved := (getApproved s)(id' := 0),
             events := events s @ [Transfer from to id']\<rparr>
      else s)"
  by (simp add: after_def transferFrom_def onlyController_def Let_def)

lemma mint_Inr:
  "mint e to s = Inr (tokenId, s') \<Longrightarrow>
     tokenId = i_idTracker s \<and> i_idTracker s' = i_idTracker s + 1"
  by (auto simp: mint_def i_mint_def Let_def split: if_splits)

lemma safeMint_Inr:
  "safeMint e to s = Inr (tokenId, s') \<Longrightarrow>
     tokenId = i_idTracker s \<and> i_idTracker s' = i_idTracker s + 1"
  by (auto simp: safeMint_def i_safeMint_def i_mint_def Let_def split: if_splits)

lemma mint_by_controller:
  "msg_sender e = controller s \<Longrightarrow>
     \<exists>s'. mint e to s = Inr (i_idTracker s, s') \<and> controller s' = controller s \<and>
          i_idTracker s' = i_idTracker s + 1"
  by (simp add: mint_def i_mint_def onlyController_def Let_def)

lemma burn_Inr:
  "burn e id' s = Inr s' \<Longrightarrow> i_ownerOf s' id' = 0 \<and> controller s' = controller s"
  by (auto simp: burn_def i_burn_def split: if_splits)

lemma one_minted_eq:
  "one_minted = (deployed 1 2)\<lparr>i_ownerOf := (\<lambda>_. 0)(0 := 7), events := [Transfer 0 7 0],
                             i_idTracker := 1, i_supply := 1\<rparr>"
  by (simp add: one_minted_def mint_def i_mint_def onlyController_def call_by_def
      deployed_def Let_def)

lemma burn_one_minted: "burn (call_by 2 0) 0 one_minted = Inr then_burned"
  by (simp add: then_burned_def one_minted_eq burn_def i_burn_def onlyController_def
      call_by_def deployed_def after_def)

subsection \<open>The mint timestamp\<close>

text \<open>
  Neither \<open>mint\<close> nor \<open>safeMint\<close> writes the \<open>timestamps\<close> mapping: a successful mint
  leaves every entry as it was, whatever the block's time.
\<close>

lemma mint_timestamps:
  "mint e to s = Inr (tokenId, s') \<Longrightarrow> timestamps s' = timestamps s"
  by (auto simp: mint_def i_mint_def Let_def split: if_splits)

lemma safeMint_timestamps:
  "safeMint e to s = Inr (tokenId, s') \<Longrightarrow> timestamps s' = timestamps s"
  by (auto simp: safeMint_def i_safeMint_def i_mint_def Let_def split: if_splits)

lemma step_timestamps: "timestamps (snd (step c s)) = timestamps s"
proof (cases c)
  case (Pair e k)
  show ?thesis
  proof (cases k)
    case (Mint to)
    with Pair show ?thesis
      by (cases "mint e to s") (auto dest: mint_timestamps)
  next
    case (SafeMint to)
    with Pair show ?thesis
      by (cases "safeMint e to s") (auto dest: safeMint_timestamps)
  next
    case (Burn i)
    with Pair show ?thesis
      by (auto simp: after_def burn_def i_burn_def split: sum.splits if_splits)
  next
    case (TransferFrom a b i)
    with Pair show ?thesis
      by (simp add: after_transferFrom)
  next
    case (SafeTransferFrom a b i)
    with Pair show ?thesis
      by (auto simp: after_def safeTransferFrom_def super_safeTransferFrom_def
          transferFrom_Inr_iff split: sum.splits if_splits)
  next
    case (SetRenderer r)
    with Pair show ?thesis
      by (auto simp: after_def setRenderer_def split: sum.splits if_splits)
  qed
qed

text \<open>
  No sequence of calls changes the mapping: after deployment every entry is 0 and
  remains 0.
\<close>

lemma run_timestamps: "timestamps (snd (run cs s)) = timestamps s"
proof (induction cs arbitrary: s)
  case Nil
  then show ?case by simp
next
  case (Cons c cs)
  from Cons.IH [of "snd (step c s)"] step_timestamps [of c s] show ?case
    by (simp add: split_beta)
qed

text \<open>
  C1. The claim: a successful \<open>mint(to)\<close> or \<open>safeMint(to)\<close> that allocates an id sets
  \<open>timestamps[id]\<close> to the current time, and the entry never changes afterwards. The
  code at a concrete call: on the freshly deployed contract the controller mints to
  account 7 in a block whose timestamp is 1000. The call succeeds, allocates id 0 and
  makes 7 its owner, but \<open>timestamps[0]\<close> is still 0, not 1000.
\<close>

theorem mint_leaves_timestamp_unset:
  "fst (run [(call_by 2 1000, Mint 7)] (deployed 1 2)) = [0] \<and>
   i_ownerOf (snd (run [(call_by 2 1000, Mint 7)] (deployed 1 2))) 0 = 7 \<and>
   block_timestamp (call_by 2 1000) = 1000 \<and>
   timestamps (snd (run [(call_by 2 1000, Mint 7)] (deployed 1 2))) 0 = 0"
  by (simp add: mint_def i_mint_def onlyController_def call_by_def deployed_def Let_def)

subsection \<open>Who may transfer\<close>

text \<open>
  The modifier admits the controller only, so the inner approval test can never fail for
  a caller that reached it.
\<close>

lemma transferFrom_only_controller:
  "transferFrom e from to id' s = Inr s' \<Longrightarrow> msg_sender e = controller s"
  by (simp add: transferFrom_Inr_iff)

text \<open>
  C2. A call of \<open>transferFrom(from, to, id)\<close> succeeds only if the caller is the
  controller, \<open>from\<close> itself, an approved operator for \<open>from\<close>, or the per-token approved
  address of \<open>id\<close>; every other caller fails with \<open>Unauthorized\<close> (the code's
  \<open>CallerIsNotAuthorized\<close>), in every state.
\<close>

theorem transferFrom_authorization:
  "(transferFrom e from to id' s = Inr s' \<longrightarrow>
      msg_sender e = controller s \<or> msg_sender e = from \<or>
      isApprovedForAll s from (msg_sender e) \<or> msg_sender e = getApproved s id') \<and>
   (\<not> (msg_sender e = controller s \<or> msg_sender e = from \<or>
        isApprovedForAll s from (msg_sender e) \<or> msg_sender e = getApproved s id') \<longrightarrow>
      transferFrom e from to id' s = Inl CallerIsNotAuthorized)"
  by (auto simp: transferFrom_def onlyController_def Let_def split: if_splits)

theorem transferFrom_authorization_witness:
  "transferFrom (call_by 2 0) 7 8 0 one_minted =
     Inr (after one_minted (transferFrom (call_by 2 0) 7 8 0 one_minted)) \<and>
   msg_sender (call_by 2 0) = controller one_minted \<and>
   \<not> (msg_sender (call_by 9 0) = controller one_minted \<or> msg_sender (call_by 9 0) = 7 \<or>
      isApprovedForAll one_minted 7 (msg_sender (call_by 9 0)) \<or>
      msg_sender (call_by 9 0) = getApproved one_minted 0) \<and>
   transferFrom (call_by 9 0) 7 8 0 one_minted = Inl CallerIsNotAuthorized"
  using transferFrom_authorization [of "call_by 9 0" 7 8 0 one_minted]
    transferFrom_authorization [of "call_by 2 0" 7 8 0 one_minted]
  by (simp add: one_minted_eq transferFrom_def onlyController_def call_by_def deployed_def
      after_def Let_def)

subsection \<open>Allocation of ids\<close>

lemma burn_idTracker: "burn e id' s = Inr s' \<Longrightarrow> i_idTracker s' = i_idTracker s"
  by (auto simp: burn_def i_burn_def split: if_splits)

lemma transferFrom_idTracker:
  "transferFrom e from to id' s = Inr s' \<Longrightarrow> i_idTracker s' = i_idTracker s"
  by (auto simp: transferFrom_def Let_def split: if_splits)

lemma safeTransferFrom_idTracker:
  "safeTransferFrom e from to id' s = Inr s' \<Longrightarrow> i_idTracker s' = i_idTracker s"
  by (auto simp: safeTransferFrom_def super_safeTransferFrom_def
      split: if_splits sum.splits dest: transferFrom_idTracker)

lemma setRenderer_idTracker: "setRenderer e r s = Inr s' \<Longrightarrow> i_idTracker s' = i_idTracker s"
  by (auto simp: setRenderer_def split: if_splits)

lemma after_idTracker:
  "(\<And>s'. r = Inr s' \<Longrightarrow> i_idTracker s' = i_idTracker s) \<Longrightarrow>
   i_idTracker (after s r) = i_idTracker s"
  by (cases r) (simp_all add: after_def)

text \<open>
  One call either allocates nothing and leaves the tracker alone, or is a mint that
  returns the tracker's value and adds one to it (modulo \<open>2 ^ 256\<close>).
\<close>

lemma step_idTracker:
  "step c s = (ids, s') \<Longrightarrow>
     (ids = [] \<and> i_idTracker s' = i_idTracker s) \<or>
     (is_mint c \<and> ids = [i_idTracker s] \<and> i_idTracker s' = i_idTracker s + 1)"
proof (cases c)
  case (Pair e k)
  assume st: "step c s = (ids, s')"
  show ?thesis
  proof (cases k)
    case (Mint to)
    with Pair st show ?thesis
      by (cases "mint e to s") (auto dest: mint_Inr)
  next
    case (SafeMint to)
    with Pair st show ?thesis
      by (cases "safeMint e to s") (auto dest: safeMint_Inr)
  next
    case (Burn i)
    with Pair st show ?thesis
      by (auto intro: after_idTracker burn_idTracker)
  next
    case (TransferFrom a b i)
    with Pair st show ?thesis
      by (auto intro: after_idTracker transferFrom_idTracker)
  next
    case (SafeTransferFrom a b i)
    with Pair st show ?thesis
      by (auto intro: after_idTracker safeTransferFrom_idTracker)
  next
    case (SetRenderer r)
    with Pair st show ?thesis
      by (auto intro: after_idTracker setRenderer_idTracker)
  qed
qed

lemma consecutive_Suc:
  "map (\<lambda>k. (a :: 'a::len word) + of_nat k) [0..<Suc n] =
     a # map (\<lambda>k. a + 1 + of_nat k) [0..<n]"
  by (simp add: upt_conv_Cons map_Suc_upt [symmetric] del: upt_Suc add: ac_simps)

lemma run_ids:
  "run cs s = (ids, s') \<Longrightarrow>
     length ids \<le> length (filter is_mint cs) \<and>
     ids = map (\<lambda>k. i_idTracker s + of_nat k) [0..<length ids] \<and>
     i_idTracker s' = i_idTracker s + of_nat (length ids)"
proof (induction cs arbitrary: s ids s')
  case Nil
  then show ?case by simp
next
  case (Cons c cs)
  obtain i1 s1 where st: "step c s = (i1, s1)" by (cases "step c s")
  obtain i2 s2 where rn: "run cs s1 = (i2, s2)" by (cases "run cs s1")
  from Cons.prems st rn have ids: "ids = i1 @ i2" and s': "s' = s2" by simp_all
  note ih = Cons.IH [OF rn]
  from step_idTracker [OF st] show ?case
  proof
    assume "i1 = [] \<and> i_idTracker s1 = i_idTracker s"
    with ih ids s' show ?thesis by simp
  next
    assume a: "is_mint c \<and> i1 = [i_idTracker s] \<and> i_idTracker s1 = i_idTracker s + 1"
    with ih ids s' consecutive_Suc [of "i_idTracker s" "length i2"] show ?thesis
      by (simp add: ac_simps del: upt_Suc)
  qed
qed

lemma distinct_consecutive:
  "unat (a :: 'a::len word) + n \<le> 2 ^ LENGTH('a) \<Longrightarrow>
     distinct (map (\<lambda>k. a + of_nat k) [0..<n])"
proof -
  assume b: "unat a + n \<le> 2 ^ LENGTH('a)"
  have "inj_on (\<lambda>k. a + (of_nat k :: 'a word)) {0..<n}"
  proof (rule inj_onI)
    fix x y assume "x \<in> {0..<n}" "y \<in> {0..<n}" "a + of_nat x = a + (of_nat y :: 'a word)"
    then have "unat (of_nat x :: 'a word) = unat (of_nat y :: 'a word)"
      "x < 2 ^ LENGTH('a)" "y < 2 ^ LENGTH('a)"
      using b by auto
    then show "x = y"
      by (simp add: unat_of_nat)
  qed
  then show ?thesis by (simp add: distinct_map)
qed

lemma no_wrap_le:
  "unat (a :: 'a::len word) + n < 2 ^ LENGTH('a) \<Longrightarrow> a \<le> a + of_nat n"
proof -
  assume b: "unat a + n < 2 ^ LENGTH('a)"
  then have "unat (of_nat n :: 'a word) = n"
    by (simp add: unat_of_nat)
  with b show ?thesis
    by (simp add: no_plus_overflow_unat_size word_size)
qed

lemma run_append:
  "run (xs @ ys) s =
     (let (i1, s1) = run xs s; (i2, s2) = run ys s1 in (i1 @ i2, s2))"
  by (induction xs arbitrary: s) (simp_all add: split_beta Let_def)

lemma run_replicate_mint:
  "msg_sender e = controller s \<Longrightarrow>
     fst (run (replicate n (e, Mint to)) s) = map (\<lambda>k. i_idTracker s + of_nat k) [0..<n] \<and>
     i_idTracker (snd (run (replicate n (e, Mint to)) s)) = i_idTracker s + of_nat n \<and>
     controller (snd (run (replicate n (e, Mint to)) s)) = controller s"
proof (induction n arbitrary: s)
  case 0
  then show ?case by simp
next
  case (Suc n)
  from mint_by_controller [OF Suc.prems] obtain s1 where
    m: "mint e to s = Inr (i_idTracker s, s1)" and c: "controller s1 = controller s"
    and t: "i_idTracker s1 = i_idTracker s + 1" by blast
  from Suc.prems c have "msg_sender e = controller s1" by simp
  note ih = Suc.IH [OF this]
  from ih m c t consecutive_Suc [of "i_idTracker s" n] show ?case
    by (simp add: split_beta ac_simps del: upt_Suc)
qed

lemma run_mint_burn_mints:
  "fst (run ((call_by 2 0, Mint 7) # (call_by 2 0, Burn 0) # replicate n (call_by 2 0, Mint 7))
         (deployed 1 2)) = 0 # map (\<lambda>k. 1 + of_nat k) [0..<n]"
proof -
  let ?e = "call_by 2 0" and ?s = "deployed 1 2"
  obtain s2 where s2: "run [(?e, Mint 7), (?e, Burn 0)] ?s = ([0], s2)"
    and c2: "msg_sender ?e = controller s2" and t2: "i_idTracker s2 = 1"
    by (simp add: mint_def i_mint_def burn_def i_burn_def onlyController_def call_by_def
        deployed_def after_def Let_def)
  have "(?e, Mint 7) # (?e, Burn 0) # replicate n (?e, Mint 7) =
        [(?e, Mint 7), (?e, Burn 0)] @ replicate n (?e, Mint 7)"
    by simp
  then have "fst (run ((?e, Mint 7) # (?e, Burn 0) # replicate n (?e, Mint 7)) ?s) =
        [0] @ fst (run (replicate n (?e, Mint 7)) s2)"
    using s2 by (simp only: run_append Let_def split_beta fst_conv snd_conv)
  with run_replicate_mint [OF c2, of n 7] t2 show ?thesis
    by simp
qed

text \<open>
  C3, as the claim states it, fails where the tracker wraps. \<open>mint\<close> increments inside
  \<open>unchecked\<close>: from the deployed contract, \<open>2 ^ 256 - 1\<close> mints by the controller take
  \<open>nextId\<close> to its largest value, and the next mint succeeds and takes it back to 0. In
  \<open>wrap_calls\<close> token 0 is minted, burned, and \<open>2 ^ 256\<close> mints later allocated a
  second time.
\<close>

theorem nextId_wraps_counterexample:
  "getNextId (snd (run (replicate (2 ^ 256 - 1) (call_by 2 0, Mint 7)) (deployed 1 2))) = - 1 \<and>
   getNextId (snd (run (replicate (2 ^ 256) (call_by 2 0, Mint 7)) (deployed 1 2))) = 0 \<and>
   \<not> distinct (fst (run wrap_calls (deployed 1 2)))"
proof -
  let ?e = "call_by 2 0" and ?s = "deployed 1 2"
  have c: "msg_sender ?e = controller ?s" by (simp add: call_by_def deployed_def)
  have z: "i_idTracker ?s = 0" by (simp add: deployed_def)
  have m: "of_nat (2 ^ 256 - 1) = (- 1 :: uint256)" "of_nat (2 ^ 256) = (0 :: uint256)"
    by simp_all
  have a: "getNextId (snd (run (replicate (2 ^ 256 - 1) (?e, Mint 7)) ?s)) = - 1"
    using run_replicate_mint [OF c, of "2 ^ 256 - 1" 7] z m
    by (simp only: getNextId_def add_0)
  have b: "getNextId (snd (run (replicate (2 ^ 256) (?e, Mint 7)) ?s)) = 0"
    using run_replicate_mint [OF c, of "2 ^ 256" 7] z m
    by (simp only: getNextId_def add_0)
  have w: "(0 :: uint256) = 1 + of_nat (2 ^ 256 - 1)"
    by (simp only: m) simp
  have "(2 ^ 256 - 1 :: nat) \<in> set [0..<2 ^ 256]"
    by (simp only: set_upt) simp
  then have "(0 :: uint256) \<in> set (map (\<lambda>k. 1 + of_nat k) [0..<2 ^ 256])"
    unfolding set_map using w by (rule rev_image_eqI)
  then have "\<not> distinct (0 # map (\<lambda>k. (1 :: uint256) + of_nat k) [0..<2 ^ 256])"
    by (simp only: distinct.simps simp_thms)
  then have "\<not> distinct (fst (run wrap_calls ?s))"
    by (simp only: wrap_calls_def run_mint_burn_mints simp_thms)
  with a b show ?thesis by (simp only: simp_thms)
qed

text \<open>
  C3, amended. Each successful \<open>mint\<close> or \<open>safeMint\<close> returns the current \<open>nextId\<close> and
  sets \<open>nextId\<close> to that value plus 1 modulo \<open>2 ^ 256\<close>; a successful \<open>burn\<close> leaves
  \<open>nextId\<close> as it is. In every sequence of calls (mints, burns, transfers, renderer
  updates, successful or reverting) the mints return \<open>nextId\<close>, \<open>nextId + 1\<close>, and so
  on, in this order, and \<open>nextId\<close> ends that many above its start, modulo \<open>2 ^ 256\<close>.
  If the mints of the sequence cannot take the tracker past \<open>2 ^ 256 - 1\<close>, then
  \<open>nextId\<close> at the end is not below \<open>nextId\<close> at the start, and the ids the mints returned
  are pairwise distinct: none is allocated a second time.
\<close>

theorem nextId_allocation:
  "(mint e to s = Inr (tokenId, sm) \<longrightarrow>
      tokenId = getNextId s \<and> getNextId sm = getNextId s + 1) \<and>
   (safeMint e to s = Inr (tokenId, sm) \<longrightarrow>
      tokenId = getNextId s \<and> getNextId sm = getNextId s + 1) \<and>
   (burn e id' s = Inr sb \<longrightarrow> getNextId sb = getNextId s) \<and>
   fst (run cs s) = map (\<lambda>k. getNextId s + of_nat k) [0..<length (fst (run cs s))] \<and>
   getNextId (snd (run cs s)) = getNextId s + of_nat (length (fst (run cs s))) \<and>
   (unat (getNextId s) + length (filter is_mint cs) < 2 ^ 256 \<longrightarrow>
      getNextId s \<le> getNextId (snd (run cs s)) \<and> distinct (fst (run cs s)))"
proof -
  obtain ids s' where rn: "run cs s = (ids, s')" by (cases "run cs s")
  note r = run_ids [OF rn]
  have "getNextId s \<le> getNextId s' \<and> distinct ids"
    if b: "unat (getNextId s) + length (filter is_mint cs) < 2 ^ 256"
  proof -
    from b r have b': "unat (i_idTracker s) + length ids < 2 ^ LENGTH(256)"
      by (simp add: getNextId_def)
    from no_wrap_le [OF b'] r have "getNextId s \<le> getNextId s'"
      by (simp add: getNextId_def)
    moreover from b' have "distinct (map (\<lambda>k. i_idTracker s + of_nat k) [0..<length ids])"
      by (intro distinct_consecutive) simp
    with r have "distinct ids" by simp
    ultimately show ?thesis by simp
  qed
  with rn r show ?thesis
    by (auto simp: getNextId_def dest: mint_Inr safeMint_Inr burn_idTracker)
qed

theorem nextId_allocation_witness:
  "mint (call_by 2 0) 7 one_minted =
     Inr (1, snd (step (call_by 2 0, Mint 7) one_minted)) \<and>
   safeMint (call_by 2 0) 7 one_minted =
     Inr (1, snd (step (call_by 2 0, Mint 7) one_minted)) \<and>
   getNextId one_minted = 1 \<and>
   getNextId (snd (step (call_by 2 0, Mint 7) one_minted)) = 2 \<and>
   burn (call_by 2 0) 0 one_minted = Inr then_burned \<and>
   getNextId then_burned = 1 \<and>
   unat (getNextId one_minted) +
     length (filter is_mint [(call_by 2 0, Mint 7), (call_by 2 0, Burn 0), (call_by 2 0, SafeMint 8)])
     < 2 ^ 256 \<and>
   fst (run [(call_by 2 0, Mint 7), (call_by 2 0, Burn 0), (call_by 2 0, SafeMint 8)] one_minted)
     = [1, 2] \<and>
   getNextId (snd (run [(call_by 2 0, Mint 7), (call_by 2 0, Burn 0), (call_by 2 0, SafeMint 8)]
     one_minted)) = 3 \<and>
   distinct (fst (run [(call_by 2 0, Mint 7), (call_by 2 0, Burn 0), (call_by 2 0, SafeMint 8)]
     one_minted))"
  using nextId_allocation [where e = "call_by 2 0" and to = 7 and s = one_minted
      and tokenId = 1 and sm = "snd (step (call_by 2 0, Mint 7) one_minted)"
      and id' = 0 and sb = then_burned
      and cs = "[(call_by 2 0, Mint 7), (call_by 2 0, Burn 0), (call_by 2 0, SafeMint 8)]"]
    burn_one_minted
  by (simp add: one_minted_eq mint_def safeMint_def i_safeMint_def i_mint_def burn_def
      i_burn_def onlyController_def call_by_def deployed_def after_def getNextId_def Let_def)

subsection \<open>After a burn\<close>

text \<open>
  C4, as the claim states it, fails: \<open>transferFrom\<close> has no \<open>NotMinted\<close> check, and the
  modifier of \<open>burn\<close> runs before the token's own check. After the controller has burned
  token 0, its \<open>transferFrom(7, 8, 0)\<close> fails with \<open>InvalidFrom\<close>, and a \<open>burn(0)\<close> by
  account 9 fails with \<open>CallerIsNotAuthorized\<close>.
\<close>

theorem after_burn_counterexample:
  "burn (call_by 2 0) 0 one_minted = Inr then_burned \<and>
   transferFrom (call_by 2 0) 7 8 0 then_burned = Inl InvalidFrom \<and>
   burn (call_by 9 0) 0 then_burned = Inl CallerIsNotAuthorized"
  by (simp add: then_burned_def one_minted_eq burn_def i_burn_def transferFrom_def
      onlyController_def call_by_def deployed_def after_def)

text \<open>
  C4, amended. In the state a successful \<open>burn(id)\<close> leaves: \<open>ownerOf(id)\<close> fails with
  \<open>NotMinted\<close>;
  \<open>burn(id)\<close> fails with \<open>NotMinted\<close> when the controller calls it and with
  \<open>Unauthorized\<close> for every other caller; \<open>transferFrom(from, to, id)\<close> fails with
  \<open>Unauthorized\<close> for every caller but the controller, and with \<open>InvalidFrom\<close> when the
  controller calls it with a \<open>from\<close> other than the zero address.
\<close>

theorem after_burn:
  assumes "burn e0 id' s = Inr s'"
  shows "ownerOf id' s' = Inl NotMinted \<and>
         burn e id' s' =
           (if msg_sender e = controller s' then Inl NotMinted else Inl CallerIsNotAuthorized) \<and>
         (msg_sender e \<noteq> controller s' \<longrightarrow>
            transferFrom e from to id' s' = Inl CallerIsNotAuthorized) \<and>
         (msg_sender e = controller s' \<and> from \<noteq> 0 \<longrightarrow>
            transferFrom e from to id' s' = Inl InvalidFrom)"
  using burn_Inr [OF assms]
  by (simp add: ownerOf_def burn_def i_burn_def transferFrom_def onlyController_def)

theorem after_burn_witness:
  "burn (call_by 2 0) 0 one_minted = Inr then_burned \<and>
   ownerOf 0 then_burned = Inl NotMinted \<and>
   burn (call_by 2 0) 0 then_burned = Inl NotMinted \<and>
   burn (call_by 9 0) 0 then_burned = Inl CallerIsNotAuthorized \<and>
   transferFrom (call_by 9 0) 7 8 0 then_burned = Inl CallerIsNotAuthorized \<and>
   transferFrom (call_by 2 0) 7 8 0 then_burned = Inl InvalidFrom"
proof -
  have c: "controller then_burned = 2"
    using burn_Inr [OF burn_one_minted] by (simp add: one_minted_eq deployed_def)
  show ?thesis
    using c burn_one_minted
      after_burn [OF burn_one_minted, of "call_by 2 0" 7 8]
      after_burn [OF burn_one_minted, of "call_by 9 0" 7 8]
    by (simp add: call_by_def)
qed

text \<open>
  The case the amended claim leaves out: the controller may name the zero address as
  \<open>from\<close>. The burned token then returns to circulation, without a mint and without a
  change of the supply, and the zero address's balance wraps around.
\<close>

lemma transfer_of_burned_token:
  "transferFrom (call_by 2 0) 0 8 0 then_burned =
     Inr (then_burned\<lparr>i_balanceOf := ((\<lambda>_. 0)(0 := - 1))(8 := 1),
                       i_ownerOf := (i_ownerOf then_burned)(0 := 8),
                       getApproved := (getApproved then_burned)(0 := 0),
                       events := events then_burned @ [Transfer 0 8 0]\<rparr>)"
  by (simp add: then_burned_def one_minted_eq burn_def i_burn_def transferFrom_def
      onlyController_def call_by_def deployed_def after_def Let_def)

subsection \<open>Effects of a transfer\<close>

text \<open>
  C5. On every successful \<open>transferFrom(from, to, id)\<close> the balance of \<open>from\<close> is
  decremented by 1 and then the balance of \<open>to\<close> is incremented by 1 (in unchecked
  \<open>uint256\<close> arithmetic, in this order, so that for distinct accounts \<open>from\<close> ends one
  lower and \<open>to\<close> one higher), \<open>_ownerOf[id]\<close> becomes \<open>to\<close>, the per-token approval of
  \<open>id\<close> is cleared, and \<open>Transfer(from, to, id)\<close> is appended to the log.
\<close>

theorem transferFrom_effects:
  assumes "transferFrom e from to id' s = Inr s'"
  shows "i_balanceOf s' =
           ((i_balanceOf s)(from := i_balanceOf s from - 1))
             (to := ((i_balanceOf s)(from := i_balanceOf s from - 1)) to + 1) \<and>
         (from \<noteq> to \<longrightarrow> i_balanceOf s' from = i_balanceOf s from - 1 \<and>
                           i_balanceOf s' to = i_balanceOf s to + 1) \<and>
         i_ownerOf s' id' = to \<and>
         getApproved s' id' = 0 \<and>
         events s' = events s @ [Transfer from to id']"
  using assms by (auto simp: transferFrom_Inr_iff)

theorem transferFrom_effects_witness:
  "transferFrom (call_by 2 0) 7 8 0 one_minted =
     Inr (after one_minted (transferFrom (call_by 2 0) 7 8 0 one_minted)) \<and>
   i_balanceOf (after one_minted (transferFrom (call_by 2 0) 7 8 0 one_minted)) 7 =
     i_balanceOf one_minted 7 - 1 \<and>
   i_balanceOf (after one_minted (transferFrom (call_by 2 0) 7 8 0 one_minted)) 8 =
     i_balanceOf one_minted 8 + 1 \<and>
   i_ownerOf (after one_minted (transferFrom (call_by 2 0) 7 8 0 one_minted)) 0 = 8 \<and>
   getApproved (after one_minted (transferFrom (call_by 2 0) 7 8 0 one_minted)) 0 = 0 \<and>
   events (after one_minted (transferFrom (call_by 2 0) 7 8 0 one_minted)) =
     [Transfer 0 7 0, Transfer 7 8 0]"
proof -
  have t: "transferFrom (call_by 2 0) 7 8 0 one_minted =
      Inr (after one_minted (transferFrom (call_by 2 0) 7 8 0 one_minted))"
    by (simp add: one_minted_eq transferFrom_def onlyController_def call_by_def deployed_def
        after_def Let_def)
  show ?thesis
    using t transferFrom_effects [OF t] by (simp add: one_minted_eq)
qed

subsection \<open>A wrong \<open>from\<close>\<close>

text \<open>
  C6. In every state, a \<open>transferFrom(from, to, id)\<close> by a caller that passes the
  controller check, with \<open>from\<close> different from the recorded owner of \<open>id\<close>, fails with
  \<open>InvalidFrom\<close>, and the ledger after the call is the ledger before it.
\<close>

theorem transferFrom_invalid_from:
  "msg_sender e = controller s \<Longrightarrow> from \<noteq> i_ownerOf s id' \<Longrightarrow>
   transferFrom e from to id' s = Inl InvalidFrom \<and>
   after s (transferFrom e from to id' s) = s"
  by (simp add: transferFrom_def onlyController_def after_def)

theorem transferFrom_invalid_from_witness:
  "msg_sender (call_by 2 0) = controller one_minted \<and> 5 \<noteq> i_ownerOf one_minted 0 \<and>
   transferFrom (call_by 2 0) 5 8 0 one_minted = Inl InvalidFrom \<and>
   after one_minted (transferFrom (call_by 2 0) 5 8 0 one_minted) = one_minted"
proof -
  have c: "msg_sender (call_by 2 0) = controller one_minted"
    by (simp add: one_minted_eq call_by_def deployed_def)
  have f: "5 \<noteq> i_ownerOf one_minted 0"
    by (simp add: one_minted_eq)
  show ?thesis
    using c f transferFrom_invalid_from [OF c f, of 8] by blast
qed

subsection \<open>What a transfer leaves alone\<close>

text \<open>
  C10. Every call of \<open>transferFrom(from, to, id)\<close>, committed or reverted, leaves
  \<open>_supply\<close>, \<open>_idTracker\<close>, \<open>timestamps\<close>, \<open>renderer\<close>, the roles and the operator
  approvals unchanged, as well as the balance of every account other than \<open>from\<close> and
  \<open>to\<close> and the owner and approval of every token other than \<open>id\<close>.
\<close>

theorem transferFrom_frame:
  "i_supply (after s (transferFrom e from to id' s)) = i_supply s \<and>
   i_idTracker (after s (transferFrom e from to id' s)) = i_idTracker s \<and>
   timestamps (after s (transferFrom e from to id' s)) = timestamps s \<and>
   renderer (after s (transferFrom e from to id' s)) = renderer s \<and>
   owner (after s (transferFrom e from to id' s)) = owner s \<and>
   controller (after s (transferFrom e from to id' s)) = controller s \<and>
   isApprovedForAll (after s (transferFrom e from to id' s)) = isApprovedForAll s \<and>
   (\<forall>a. a \<noteq> from \<and> a \<noteq> to \<longrightarrow>
        i_balanceOf (after s (transferFrom e from to id' s)) a = i_balanceOf s a) \<and>
   (\<forall>i. i \<noteq> id' \<longrightarrow>
        i_ownerOf (after s (transferFrom e from to id' s)) i = i_ownerOf s i \<and>
        getApproved (after s (transferFrom e from to id' s)) i = getApproved s i)"
  unfolding after_transferFrom by simp

theorem transferFrom_frame_witness:
  "(3 :: address) \<noteq> 7 \<and> (3 :: address) \<noteq> 8 \<and> (1 :: uint256) \<noteq> 0 \<and>
   transferFrom (call_by 2 0) 7 8 0 one_minted =
     Inr (after one_minted (transferFrom (call_by 2 0) 7 8 0 one_minted)) \<and>
   i_supply (after one_minted (transferFrom (call_by 2 0) 7 8 0 one_minted)) = 1 \<and>
   i_idTracker (after one_minted (transferFrom (call_by 2 0) 7 8 0 one_minted)) = 1 \<and>
   i_balanceOf (after one_minted (transferFrom (call_by 2 0) 7 8 0 one_minted)) 3 =
     i_balanceOf one_minted 3 \<and>
   i_ownerOf (after one_minted (transferFrom (call_by 2 0) 7 8 0 one_minted)) 1 =
     i_ownerOf one_minted 1"
  using transferFrom_frame [of one_minted "call_by 2 0" 7 8 0]
  by (simp add: one_minted_eq transferFrom_def onlyController_def call_by_def deployed_def
      after_def Let_def)

section \<open>Properties of the lock page\<close>

subsection \<open>Values that rounding leaves alone\<close>

lemma round_magnitude_0: "round_magnitude 0 = Some 0"
  by (simp add: round_magnitude_def)

lemma round_magnitude_half: "round_magnitude (1 / 2) = Some (1 / 2)"
  by code_simp

text \<open>Every integer below \<open>2 ^ 53\<close> is a double.\<close>

lemma round_magnitude_int:
  assumes "0 \<le> k" "k < 2 ^ 53"
  shows "round_magnitude (of_int k) = Some (of_int k)"
proof (cases "k = 0")
  case True
  then show ?thesis by (simp add: round_magnitude_def)
next
  case False
  with assms have pos: "0 < k" by simp
  define b where "b = bitlen k"
  from bitlen_bounds [OF pos] have lo: "2 ^ nat (b - 1) \<le> k" and hi: "k < 2 ^ nat b"
    by (simp_all add: b_def)
  from pos have b1: "1 \<le> b"
    using hi by (cases "b \<le> 0") auto
  have "(2::int) ^ nat (b - 1) < 2 ^ 53" using lo assms(2) by linarith
  then have "nat (b - 1) < 53" by (rule power_less_imp_less_exp [rotated]) simp
  then have b53: "b \<le> 53" by linarith
  define j where "j = nat (53 - b)"
  have fl2: "floor_log2 (of_int k) = b - 1"
    using pos by (simp add: floor_log2_def b_def)
  have e: "max (floor_log2 (of_int k)) (- 1022) = b - 1"
    using fl2 b1 by simp
  have u: "pow2 (b - 1 - 52) = 1 / 2 ^ j"
    using b53 b1 by (auto simp: pow2_def j_def)
  have q: "of_int k / (1 / 2 ^ j) = (of_int (k * 2 ^ j) :: rat)"
    by simp
  have small: "(of_int k :: rat) < 2 ^ 1024"
  proof -
    have "(of_int k :: rat) < of_int (2 ^ 53)" using assms(2) by (simp only: of_int_less_iff)
    also have "\<dots> \<le> 2 ^ 1024" by simp
    finally show ?thesis .
  qed
  have nz: "(of_int k :: rat) \<noteq> 0" using pos by simp
  show ?thesis
    unfolding round_magnitude_def e u q Let_def
    using nz small by simp
qed

lemma round_magnitude_numeral:
  "numeral w < (2::int) ^ 53 \<Longrightarrow> round_magnitude (numeral w) = Some (numeral w)"
  using round_magnitude_int [of "numeral w"] by simp

lemma round_magnitude_1: "round_magnitude 1 = Some 1"
  using round_magnitude_int [of 1] by simp

lemma fl_int: "0 \<le> k \<Longrightarrow> k < 2 ^ 53 \<Longrightarrow> fl sg (of_int k) = Finite sg (of_int k)"
  by (simp add: fl_def round_magnitude_int)

lemma fl_numeral: "numeral w < (2::int) ^ 53 \<Longrightarrow> fl sg (numeral w) = Finite sg (numeral w)"
  by (simp add: fl_def round_magnitude_numeral)

lemma fl_simps:
  "fl sg 0 = Finite sg 0" "fl sg 1 = Finite sg 1" "fl sg (1 / 2) = Finite sg (1 / 2)"
  by (simp_all add: fl_def round_magnitude_0 round_magnitude_1 round_magnitude_half)

lemma fl_9_8: "fl False (9 / 8) = lit (9 / 8)"
  by code_simp

subsection \<open>Evaluating the operators and the formatting\<close>

lemma js_sub_lit:
  "js_sub (lit x) (lit y) = (if x = y then lit 0 else fl (x < y) \<bar>x - y\<bar>)"
  by (simp add: js_sub_def signed_value_def Let_def)

lemma floor_rat_numeral: "\<lfloor>(numeral a :: rat) / numeral b\<rfloor> = numeral a div numeral b"
  using floor_divide_of_int_eq [of "numeral a" "numeral b", where ?'a = rat] by simp

lemma digits_0: "digits 0 = ''0''"
  by (simp add: digits.simps)

lemma zeros_8: "replicate 8 c = [c, c, c, c, c, c, c, c]"
  by (simp add: numeral_eq_Suc)

lemma toFixed_zero: "toFixed (Finite s 0) 8 = JSString ''0.00000000''"
  by (simp add: toFixed_def Let_def digits_0 zeros_8)


lemma toFixed_1000: "toFixed (lit 1000) 2 = JSString ''1000.00''"
  by (simp add: toFixed_def Let_def digits.simps floor_rat_numeral)

lemma toFixed_9_8: "toFixed (lit (9 / 8)) 2 = JSString ''1.13''"
  by (simp add: toFixed_def Let_def digits.simps floor_rat_numeral)

text \<open>Past the guard, the function is the formatted interpolation.\<close>

lemma calculateVeNation_nonzero:
  assumes "nationAmount a = Finite s x" "x \<noteq> 0"
  shows "calculateVeNation a =
    toFixed
      (js_mul (nationAmount a)
         (js_div
            (js_sub (time a)
               (calculateVestingStart (nationAmount a) (veNationAmount a) (lockTime a)))
            (js_sub (max' a)
               (calculateVestingStart (nationAmount a) (veNationAmount a) (lockTime a)))))
      (if js_gt
            (js_mul (nationAmount a)
               (js_div
                  (js_sub (time a)
                     (calculateVestingStart (nationAmount a) (veNationAmount a) (lockTime a)))
                  (js_sub (max' a)
                     (calculateVestingStart (nationAmount a) (veNationAmount a) (lockTime a)))))
            (lit 1)
       then 2 else 8)"
  using assms by (simp add: calculateVeNation_def of_boolean_def signed_value_def Let_def)

subsection \<open>A lock of 1000 for four years\<close>


lemma vestingStart_existing:
  assumes "0 \<le> T0" "T0 < 2 ^ 53"
  shows "calculateVestingStart (lit 1000) (lit 1000) (lit (of_int T0 + 126227704000))
           = lit (of_int T0)"
  using assms
  by (simp add: calculateVestingStart_def fl_simps fl_numeral js_sub_lit fl_int)








subsection \<open>The two ends of the vesting\<close>

text \<open>
  For a vesting start that is a whole number of milliseconds in the range of a date,
  the horizon four years later is at a distance of exactly four years.
\<close>

lemma horizon_four_years:
  assumes "0 \<le> k" "k \<le> 8640000000000000"
  shows "js_add (lit (of_int k)) (js_mul (lit 31556926000) (lit 4))
           = lit (of_int k + 126227704000) \<and>
         js_sub (lit (of_int k + 126227704000)) (lit (of_int k)) = lit 126227704000"
proof -
  from assms have "0 \<le> k + 126227704000" "k + 126227704000 < 2 ^ 53" by simp_all
  from fl_int [OF this, of False] have "fl False (of_int k + 126227704000)
      = lit (of_int k + 126227704000)" by simp
  moreover from assms have "(of_int k :: rat) + 126227704000 \<noteq> 0"
    by (metis add_nonneg_pos of_int_0_le_iff less_numeral_extra(3) zero_less_numeral)
  moreover from assms have "\<bar>(of_int k :: rat) + 126227704000\<bar> = of_int k + 126227704000"
    by simp
  moreover from assms have "\<not> (of_int k :: rat) + 126227704000 < 0"
    by simp
  ultimately show ?thesis
    by (simp add: fl_numeral js_sub_lit signed_value_def Let_def)
qed

lemma small_lock_vestingStart:
  "calculateVestingStart (nationAmount small_lock) (veNationAmount small_lock)
     (lockTime small_lock) = lit 1650000000000"
  by (simp add: small_lock_def calculateVestingStart_def fl_simps fl_numeral js_sub_lit)

text \<open>
  C8, as the claim states it, fails at the horizon: the result is the amount formatted
  by \<open>toFixed\<close>, with 2 decimals above 1 and 8 otherwise. \<open>small_lock\<close> locks 1.125, a
  double; its vesting starts at 1650000000000, its horizon is four years later, and
  there the function returns \<open>"1.13"\<close>, which is not the amount.
\<close>

theorem endpoints_counterexample:
  "fl False (9 / 8) = nationAmount small_lock \<and>
   calculateVestingStart (nationAmount small_lock) (veNationAmount small_lock)
     (lockTime small_lock) = lit 1650000000000 \<and>
   js_add (lit 1650000000000) (js_mul (lit 31556926000) (lit 4)) = max' small_lock \<and>
   time small_lock = max' small_lock \<and>
   calculateVeNation small_lock = JSString ''1.13''"
proof -
  have n: "nationAmount small_lock = Finite False (9 / 8)" by (simp add: small_lock_def)
  have "calculateVeNation small_lock = JSString ''1.13''"
    unfolding calculateVeNation_nonzero [OF n, simplified] small_lock_vestingStart
    by (simp add: small_lock_def js_sub_lit fl_simps fl_numeral fl_9_8 signed_value_def
        toFixed_9_8)
  moreover have "js_add (lit 1650000000000) (js_mul (lit 31556926000) (lit 4)) = max' small_lock"
    by (simp add: small_lock_def signed_value_def fl_numeral)
  ultimately show ?thesis
    using small_lock_vestingStart by (simp add: small_lock_def fl_9_8)
qed

text \<open>
  C8, amended. Take a lock whose amount \<open>x\<close> is a positive double and whose computed
  \<open>vestingStart\<close> is finite, and a horizon \<open>max\<close> at a finite distance other than zero
  from it (\<open>vestingStart\<close> plus four years is one). Evaluated at \<open>vestingStart\<close> the
  function returns \<open>"0.00000000"\<close>; evaluated at the horizon it returns the lock's full
  amount as \<open>toFixed\<close> formats it, rounded to 2 decimals if \<open>x > 1\<close> and to 8 otherwise.
\<close>

theorem endpoints:
  assumes amt: "nationAmount a = lit x" "0 < x" "fl False x = lit x"
    and vs: "calculateVestingStart (nationAmount a) (veNationAmount a) (lockTime a) = Finite sv v"
    and hz: "js_sub (max' a) (Finite sv v) = Finite sd d" "d \<noteq> 0"
  shows "calculateVeNation (a\<lparr>time := Finite sv v\<rparr>) = JSString ''0.00000000'' \<and>
         calculateVeNation (a\<lparr>time := max' a\<rparr>) = toFixed (lit x) (if 1 < x then 2 else 8)"
proof -
  from amt have nz: "x \<noteq> 0" by simp
  have z: "js_sub (Finite sv v) (Finite sv v) = lit 0"
    by (cases sv) (simp_all add: js_sub_def signed_value_def)
  have p0: "js_div (lit 0) (Finite sd d) = Finite sd 0"
    using hz(2) by (simp add: fl_simps)
  have p1: "js_div (Finite sd d) (Finite sd d) = lit 1"
    using hz(2) by (simp add: fl_simps)
  have f0: "js_mul (lit x) (Finite sd 0) = Finite sd 0"
    by (simp add: fl_simps)
  have f1: "js_mul (lit x) (lit 1) = lit x"
    using amt(3) by simp
  have g0: "js_gt (Finite sd 0) (lit 1) = False"
    by (simp add: signed_value_def)
  have g1: "js_gt (lit x) (lit 1) = (1 < x)"
    by (simp add: signed_value_def)
  have a0: "nationAmount (a\<lparr>time := t\<rparr>) = Finite False x" for t
    using amt(1) by simp
  have "calculateVeNation (a\<lparr>time := Finite sv v\<rparr>) = JSString ''0.00000000''"
    unfolding calculateVeNation_nonzero [OF a0 nz]
    by (simp add: amt(1) [symmetric] vs hz(1) z p0 g0 toFixed_zero
        del: js_mul.simps js_div.simps js_gt.simps)
      (simp add: amt(1) f0 g0 toFixed_zero del: js_mul.simps js_gt.simps)
  moreover have "calculateVeNation (a\<lparr>time := max' a\<rparr>) =
      toFixed (lit x) (if 1 < x then 2 else 8)"
    unfolding calculateVeNation_nonzero [OF a0 nz]
    by (simp add: amt(1) [symmetric] vs hz(1) p1 del: js_mul.simps js_div.simps js_gt.simps)
      (simp add: amt(1) f1 g1 del: js_mul.simps js_gt.simps)
  ultimately show ?thesis by simp
qed

theorem endpoints_witness:
  "nationAmount (existing_lock 1650000000000 0) = lit 1000 \<and> (0 :: rat) < 1000 \<and>
   fl False 1000 = lit 1000 \<and>
   calculateVestingStart (nationAmount (existing_lock 1650000000000 0))
     (veNationAmount (existing_lock 1650000000000 0)) (lockTime (existing_lock 1650000000000 0))
     = lit 1650000000000 \<and>
   js_sub (max' (existing_lock 1650000000000 0)) (lit 1650000000000) = lit 126227704000 \<and>
   (126227704000 :: rat) \<noteq> 0 \<and>
   calculateVeNation (existing_lock 1650000000000 1650000000000) = JSString ''0.00000000'' \<and>
   calculateVeNation (existing_lock 1650000000000 1776227704000) = JSString ''1000.00''"
proof -
  let ?a = "existing_lock 1650000000000 0"
  have 1: "nationAmount ?a = lit 1000" by (simp add: existing_lock_def)
  have 2: "(0 :: rat) < 1000" by simp
  have 3: "fl False 1000 = lit 1000" by (simp add: fl_numeral)
  have 4: "calculateVestingStart (nationAmount ?a) (veNationAmount ?a) (lockTime ?a)
      = Finite False 1650000000000"
    using vestingStart_existing [of 1650000000000] by (simp add: existing_lock_def)
  have 5: "js_sub (max' ?a) (Finite False 1650000000000) = Finite False 126227704000"
    by (simp add: existing_lock_def js_sub_lit fl_numeral)
  have 6: "(126227704000 :: rat) \<noteq> 0" by simp
  have t: "?a\<lparr>time := lit 1650000000000\<rparr> = existing_lock 1650000000000 1650000000000"
    "?a\<lparr>time := max' ?a\<rparr> = existing_lock 1650000000000 1776227704000"
    by (simp_all add: existing_lock_def)
  from endpoints [OF 1 2 3 4 5 6] 1 2 3 4 5 6 show ?thesis
    unfolding t by (simp add: toFixed_1000)
qed

subsection \<open>A lock without an amount\<close>

text \<open>
  C9. Whenever the lock amount is zero (of either sign), whatever the other arguments,
  the guard returns the number 0 at once; the divisions, the first of which would divide
  by the zero amount, are not reached.
\<close>

theorem zero_amount_short_circuits:
  "nationAmount a = Finite s 0 \<Longrightarrow> calculateVeNation a = JSNumber (lit 0)"
  by (simp add: calculateVeNation_def of_boolean_def signed_value_def)

theorem zero_amount_short_circuits_witness:
  "nationAmount empty_lock = Finite False 0 \<and>
   calculateVeNation empty_lock = JSNumber (lit 0) \<and>
   js_div (veNationAmount empty_lock) (nationAmount empty_lock) = NaN"
  using zero_amount_short_circuits [of empty_lock False]
  by (simp add: empty_lock_def)

end
